theory Spec2Isabelle
  imports Main
begin

section \<open>Python values and primitives used by the pipeline\<close>

text \<open>
  The module \<^verbatim>\<open>pc_main_baseline.py\<close> is embedded function by function. Python integers
  are \<open>int\<close>; Python strings are \<open>string\<close> (lists of 8-bit characters, so a text is read as
  its code points below 256); Python lists are lists. Exceptions, \<^verbatim>\<open>sys.exit\<close> and a loop
  that never ends are values of the type \<open>result\<close>.
\<close>

datatype py_error =
    NameError
  | ValueError
  | ZeroDivisionError
  | IndexError
  | EOFError
  | EnvironmentError

datatype 'a result =
    Returns 'a
  | Raises py_error
  | Exits int
  | Diverges

text \<open>
  A slice \<^verbatim>\<open>xs[i:j]\<close>: a negative bound counts from the end, and both bounds are clamped
  into \<open>0 .. len(xs)\<close>; an empty interval gives the empty list.
\<close>

definition py_bound :: "int \<Rightarrow> int \<Rightarrow> int" where
  "py_bound n i = (if i < 0 then max (i + n) 0 else min i n)"

definition py_slice :: "'a list \<Rightarrow> int \<Rightarrow> int \<Rightarrow> 'a list" where
  "py_slice xs i j =
     (let n = int (length xs); a = py_bound n i; b = py_bound n j
      in take (nat (b - a)) (drop (nat a) xs))"

text \<open>Floor division \<^verbatim>\<open>a // b\<close>; on \<open>int\<close>, \<open>div\<close> rounds down as Python does.\<close>

definition py_floordiv :: "int \<Rightarrow> int \<Rightarrow> int result" where
  "py_floordiv a b = (if b = 0 then Raises ZeroDivisionError else Returns (a div b))"

text \<open>The list of \<^verbatim>\<open>range(start, stop, step)\<close>; a step of zero raises \<^verbatim>\<open>ValueError\<close>.\<close>

function range_up :: "int \<Rightarrow> int \<Rightarrow> int \<Rightarrow> int list" where
  "range_up i stop step = (if 0 < step \<and> i < stop then i # range_up (i + step) stop step else [])"
  by pat_completeness auto
termination
  by (relation "measure (\<lambda>(i, stop, step). nat (stop - i))") auto

function range_down :: "int \<Rightarrow> int \<Rightarrow> int \<Rightarrow> int list" where
  "range_down i stop step = (if step < 0 \<and> stop < i then i # range_down (i + step) stop step else [])"
  by pat_completeness auto
termination
  by (relation "measure (\<lambda>(i, stop, step). nat (i - stop))") auto

declare range_up.simps [simp del] range_down.simps [simp del]

definition py_range :: "int \<Rightarrow> int \<Rightarrow> int \<Rightarrow> int list result" where
  "py_range start stop step =
     (if step = 0 then Raises ValueError
      else if 0 < step then Returns (range_up start stop step)
      else Returns (range_down start stop step))"

text \<open>\<^verbatim>\<open>str(n)\<close> of an integer, as an f-string writes it.\<close>

definition digit_char :: "nat \<Rightarrow> char" where
  "digit_char d = ''0123456789'' ! d"

function str_nat :: "nat \<Rightarrow> string" where
  "str_nat n = (if n < 10 then [digit_char n] else str_nat (n div 10) @ [digit_char (n mod 10)])"
  by pat_completeness auto
termination
  by (relation "measure (\<lambda>n. n)") auto

declare str_nat.simps [simp del]

definition str_int :: "int \<Rightarrow> string" where
  "str_int i = (if i < 0 then ''-'' @ str_nat (nat (- i)) else str_nat (nat i))"

text \<open>
  \<^verbatim>\<open>s.strip()\<close> removes the white space at both ends. Among the code points below 256,
  \<^verbatim>\<open>str.isspace\<close> holds of 9 to 13, 28 to 32, 133 and 160.
\<close>

definition is_space :: "char \<Rightarrow> bool" where
  "is_space c =
     (let n = (of_char c :: nat)
      in (9 \<le> n \<and> n \<le> 13) \<or> (28 \<le> n \<and> n \<le> 32) \<or> n = 133 \<or> n = 160)"

definition strip :: "string \<Rightarrow> string" where
  "strip s = rev (dropWhile is_space (rev (dropWhile is_space s)))"

text \<open>A text between single quotes, as the f-strings of the module write it.\<close>

definition quoted :: "string \<Rightarrow> string" where
  "quoted s = [CHR 0x27] @ s @ [CHR 0x27]"

section \<open>Effects\<close>

text \<open>
  What a run does to the outside is a trace of events, in order: lines printed
  (\<open>PrintList label xs\<close> is \<^verbatim>\<open>print(label, xs)\<close> of a list), prompts of
  \<^verbatim>\<open>input\<close>, and the calls to the embedding provider and to the vector store (an index is
  known by its name: \<open>Upsert index batch ns\<close> is \<^verbatim>\<open>index.upsert(batch, namespace=ns)\<close>). The lines
  that \<^verbatim>\<open>input\<close> will read are the list \<open>stdin\<close>; reading past its end raises
  \<^verbatim>\<open>EOFError\<close>. A function with effects takes the world and returns its result with the
  new world. The type \<open>'v\<close> is the type of an embedding vector. The remote calls are
  modelled where they return; the source handles none of their failures.
\<close>

record document =
  unit_id :: string
  unit_text :: string

record 'v vector =
  vec_id :: string
  vec_values :: 'v
  vec_metadata_text :: string

datatype 'v event =
    Print string
  | PrintList string "string list"
  | Prompt string
  | CreateIndex string
  | EmbeddingsCreate "string list"
  | Upsert string "'v vector list" string
  | Query string string 'v int

record 'v world =
  stdin :: "string list"
  trace :: "'v event list"

type_synonym ('a, 'v) io = "'v world \<Rightarrow> 'a result \<times> 'v world"

definition bind_io :: "('a, 'v) io \<Rightarrow> ('a \<Rightarrow> ('b, 'v) io) \<Rightarrow> ('b, 'v) io" where
  "bind_io m f w =
     (case m w of
        (Returns a, w') \<Rightarrow> f a w'
      | (Raises e, w') \<Rightarrow> (Raises e, w')
      | (Exits n, w') \<Rightarrow> (Exits n, w')
      | (Diverges, w') \<Rightarrow> (Diverges, w'))"

definition pure_io :: "'a result \<Rightarrow> ('a, 'v) io" where
  "pure_io r w = (r, w)"

definition emit :: "'v event \<Rightarrow> (unit, 'v) io" where
  "emit e w = (Returns (), w\<lparr>trace := trace w @ [e]\<rparr>)"

definition py_print :: "string \<Rightarrow> (unit, 'v) io" where
  "py_print s = emit (Print s)"

definition py_input :: "string \<Rightarrow> (string, 'v) io" where
  "py_input prompt w =
     (case stdin w of
        [] \<Rightarrow> (Raises EOFError, w\<lparr>trace := trace w @ [Prompt prompt]\<rparr>)
      | line # rest \<Rightarrow> (Returns line, w\<lparr>stdin := rest, trace := trace w @ [Prompt prompt]\<rparr>))"

text \<open>The calls to the vector store that a trace holds, in order.\<close>

fun upserts_of :: "'v event list \<Rightarrow> ('v vector list \<times> string) list" where
  "upserts_of [] = []"
| "upserts_of (Upsert index batch ns # es) = (batch, ns) # upserts_of es"
| "upserts_of (e # es) = upserts_of es"

fun embed_calls_of :: "'v event list \<Rightarrow> string list list" where
  "embed_calls_of [] = []"
| "embed_calls_of (EmbeddingsCreate texts # es) = texts # embed_calls_of es"
| "embed_calls_of (e # es) = embed_calls_of es"

section \<open>Chunking\<close>

text \<open>
  The tokenizer is the external library \<^verbatim>\<open>tiktoken\<close>: \<open>enc_encode\<close> and \<open>enc_decode\<close> are
  \<^verbatim>\<open>enc.encode\<close> and \<^verbatim>\<open>enc.decode\<close> of the encoding \<^verbatim>\<open>cl100k_base\<close>.

  The definition of \<^verbatim>\<open>chunk_text\<close> in force (line 321) calls the global name
  \<^verbatim>\<open>tokenize_text\<close>. The module neither defines nor imports that name, so the field
  \<open>tokenize_text\<close> holds what the name is bound to when the function is called:
  \<open>None\<close> for the module as it stands (the call raises \<^verbatim>\<open>NameError\<close>), \<open>Some f\<close> when
  the name is bound to a function \<open>f\<close>.
\<close>

record tokenizer =
  enc_encode :: "string \<Rightarrow> int list"
  enc_decode :: "int list \<Rightarrow> string"
  tokenize_text :: "(string \<Rightarrow> int list) option"

text \<open>
  The loop of \<^verbatim>\<open>chunk_text\<close> (lines 143-151 and 333-341):
  \<^verbatim>\<open>
    chunks = []
    start = 0
    while start < len(tokens):
        end = start + max_tokens
        chunk_tokens = tokens[start:end]
        chunk_text = enc.decode(chunk_tokens)
        chunks.append(chunk_text)
        start = end
    return chunks
  \<close>
  It does not end when \<open>max_tokens \<le> 0\<close> and a token is left, so it is a partial function:
  \<open>None\<close> is the loop that never returns. The decoder is a parameter; with the identity
  in its place the loop returns the token windows \<^verbatim>\<open>chunk_tokens\<close> themselves.
\<close>

partial_function (option) chunk_loop ::
  "(int list \<Rightarrow> 'c) \<Rightarrow> int list \<Rightarrow> int \<Rightarrow> int \<Rightarrow> 'c list \<Rightarrow> 'c list option" where
  "chunk_loop decode tokens max_tokens start chunks =
     (if start < int (length tokens)
      then let end' = start + max_tokens;
               chunk_tokens = py_slice tokens start end'
           in chunk_loop decode tokens max_tokens end' (chunks @ [decode chunk_tokens])
      else Some chunks)"


text \<open>The definition at line 131, which tokenizes with \<^verbatim>\<open>enc.encode\<close>; the definition
  at line 321 replaces it before any call.\<close>

definition chunk_text_shadowed :: "tokenizer \<Rightarrow> string \<Rightarrow> int \<Rightarrow> string list result" where
  "chunk_text_shadowed enc text max_tokens =
     (let tokens = enc_encode enc text
      in if int (length tokens) \<le> max_tokens then Returns [text]
         else (case chunk_loop (enc_decode enc) tokens max_tokens 0 [] of
                 None \<Rightarrow> Diverges
               | Some chunks \<Rightarrow> Returns chunks))"

text \<open>The definition at line 321, the one every call reaches.\<close>

definition chunk_text :: "tokenizer \<Rightarrow> string \<Rightarrow> int \<Rightarrow> string list result" where
  "chunk_text enc text max_tokens =
     (case tokenize_text enc of
        None \<Rightarrow> Raises NameError
      | Some tokenize \<Rightarrow>
          (let tokens = tokenize text
           in if int (length tokens) \<le> max_tokens then Returns [text]
              else (case chunk_loop (enc_decode enc) tokens max_tokens 0 [] of
                      None \<Rightarrow> Diverges
                    | Some chunks \<Rightarrow> Returns chunks)))"

section \<open>The collaborators and the command line\<close>

text \<open>
  The file system, the optional parsing libraries, the environment variables, the embedding
  provider and the vector store are outside the module; the record \<open>env\<close> holds what they
  answer. An operation that can raise tells which exception: \<^verbatim>\<open>IOError\<close> (with the text
  that \<^verbatim>\<open>str(e)\<close> gives) or another \<^verbatim>\<open>Exception\<close>.
  \<^item> \<open>read_text p\<close> is \<^verbatim>\<open>open(p, "r", encoding="utf-8", errors="ignore")\<close> and \<^verbatim>\<open>f.read()\<close>;
  \<^item> \<open>open_rb p\<close> is \<^verbatim>\<open>open(p, "rb")\<close>, \<open>None\<close> when the file opens;
  \<^item> \<open>pdf_pages p\<close> is \<^verbatim>\<open>PyPDF2.PdfReader(f)\<close> and \<^verbatim>\<open>page.extract_text()\<close> of every page
    (\<open>None\<close> for a page without text);
  \<^item> \<open>docx_paragraphs p\<close> is the text of the paragraphs of \<^verbatim>\<open>docx.Document(p)\<close>;
  \<^item> \<open>has_PyPDF2\<close> and \<open>has_docx\<close> say whether the optional imports of lines 13-21 succeeded;
  \<^item> \<open>embeddings_create texts\<close> is the list of \<^verbatim>\<open>r.embedding\<close> over the \<^verbatim>\<open>response.data\<close> of
    \<^verbatim>\<open>client.embeddings.create(model="text-embedding-3-large", input=texts)\<close>;
  \<^item> \<open>index_query ns v k\<close> is the list of matches of \<^verbatim>\<open>index.query\<close>, each with the text of
    its metadata and its score as \<^verbatim>\<open>:.4f\<close> writes it.
\<close>

datatype exn = IOError string | OtherException string

record 'v env =
  tiktoken :: tokenizer
  os_walk :: "string \<Rightarrow> (string \<times> string list \<times> string list) list"
  os_path_join :: "string \<Rightarrow> string \<Rightarrow> string"
  os_path_splitext :: "string \<Rightarrow> string \<times> string"
  os_path_isdir :: "string \<Rightarrow> bool"
  os_access_R_OK :: "string \<Rightarrow> bool"
  has_PyPDF2 :: bool
  has_docx :: bool
  read_text :: "string \<Rightarrow> exn + string"
  open_rb :: "string \<Rightarrow> exn option"
  pdf_pages :: "string \<Rightarrow> exn + string option list"
  docx_paragraphs :: "string \<Rightarrow> exn + string list"
  os_getenv :: "string \<Rightarrow> string option"
  list_indexes :: "string list"
  embeddings_create :: "string list \<Rightarrow> 'v list"
  index_query :: "string \<Rightarrow> 'v \<Rightarrow> int \<Rightarrow> (string \<times> string) list"

text \<open>
  The namespace that \<^verbatim>\<open>parse_args\<close> returns. The parser declares no \<^verbatim>\<open>--batch-size\<close>, so
  the attribute \<^verbatim>\<open>batch_size\<close> is absent (\<open>None\<close>) in every run of \<^verbatim>\<open>main\<close>;
  \<^verbatim>\<open>upsert_data\<close> reads it with \<^verbatim>\<open>hasattr\<close>, so the field also admits a present attribute
  that holds \<^verbatim>\<open>None\<close> (\<open>Some None\<close>) or an integer.
\<close>

record args =
  arg_index :: "string option"
  arg_namespace :: "string option"
  arg_directory :: "string option"
  arg_non_interactive :: bool
  arg_batch_size :: "int option option"

section \<open>Collecting the documents\<close>

text \<open>\<^verbatim>\<open>s.lower()\<close> on the code points below 256, and \<^verbatim>\<open>sep.join(xs)\<close>.\<close>

definition lower_char :: "char \<Rightarrow> char" where
  "lower_char c =
     (let n = (of_char c :: nat)
      in if (65 \<le> n \<and> n \<le> 90) \<or> (192 \<le> n \<and> n \<le> 214) \<or> (216 \<le> n \<and> n \<le> 222)
         then char_of (n + 32) else c)"

definition str_lower :: "string \<Rightarrow> string" where
  "str_lower s = map lower_char s"

fun py_join :: "string \<Rightarrow> string list \<Rightarrow> string" where
  "py_join sep [] = []"
| "py_join sep [x] = x"
| "py_join sep (x # y # ys) = x @ sep @ py_join sep (y # ys)"

text \<open>
  The \<^verbatim>\<open>try\<close> statement of \<^verbatim>\<open>process_file\<close> (lines 350-379) either leaves the text of the file
  in \<^verbatim>\<open>text\<close> or ends in one of its handlers, each of which prints a line and returns the
  empty list: the inner handler of the PDF branch, the inner handler of the DOCX branch, or
  the outer handlers (\<^verbatim>\<open>except IOError\<close>, then \<^verbatim>\<open>except Exception\<close>). A file whose extension
  is none of the known ones, and a PDF or DOCX file whose library is missing, is read as text.
\<close>

datatype failure = PdfError exn | DocxError exn | OuterError exn

definition exn_str :: "exn \<Rightarrow> string" where
  "exn_str e = (case e of IOError m \<Rightarrow> m | OtherException m \<Rightarrow> m)"

definition extract_text :: "'v env \<Rightarrow> string \<Rightarrow> string \<Rightarrow> failure + string" where
  "extract_text env filepath ext =
     (if ext \<in> set [''.txt'', ''.md'', ''.py'', ''.json'', ''.csv''] then
        (case read_text env filepath of
           Inl e \<Rightarrow> Inl (OuterError e)
         | Inr content \<Rightarrow> Inr content)
      else if ext = ''.pdf'' \<and> has_PyPDF2 env then
        (case open_rb env filepath of
           Some e \<Rightarrow> Inl (OuterError e)
         | None \<Rightarrow>
             (case pdf_pages env filepath of
                Inl e \<Rightarrow> Inl (PdfError e)
              | Inr pages \<Rightarrow>
                  Inr (concat (map (\<lambda>page. case page of None \<Rightarrow> [] | Some t \<Rightarrow> t) pages))))
      else if ext \<in> set [''.docx''] \<and> has_docx env then
        (case docx_paragraphs env filepath of
           Inl e \<Rightarrow> Inl (DocxError e)
         | Inr paragraphs \<Rightarrow> Inr (py_join [CHR 0x0A] paragraphs))
      else
        (case read_text env filepath of
           Inl e \<Rightarrow> Inl (OuterError e)
         | Inr content \<Rightarrow> Inr content))"

definition failure_line :: "failure \<Rightarrow> string \<Rightarrow> string" where
  "failure_line f filepath =
     (case f of
        PdfError e \<Rightarrow> ''Error reading PDF '' @ filepath @ '': '' @ exn_str e
      | DocxError e \<Rightarrow> ''Error reading DOCX '' @ filepath @ '': '' @ exn_str e
      | OuterError (IOError m) \<Rightarrow> ''IOError processing file '' @ filepath @ '': '' @ m
      | OuterError (OtherException m) \<Rightarrow>
          ''Unexpected error processing file '' @ filepath @ '': '' @ m)"

text \<open>
  \<^verbatim>\<open>process_file\<close> (line 343). After the \<^verbatim>\<open>try\<close> statement, outside every handler:
  \<^verbatim>\<open>
    chunks = chunk_text(text)
    print(f"Processed '{filepath}' into {len(chunks)} chunk(s).")
    return chunks
  \<close>
  with the default \<^verbatim>\<open>max_tokens=1000\<close>.
\<close>

definition process_file :: "'v env \<Rightarrow> string \<Rightarrow> (string list, 'v) io" where
  "process_file env filepath =
     (let ext = str_lower (snd (os_path_splitext env filepath))
      in case extract_text env filepath ext of
           Inl f \<Rightarrow> bind_io (py_print (failure_line f filepath)) (\<lambda>_. pure_io (Returns []))
         | Inr content \<Rightarrow>
             bind_io (pure_io (chunk_text (tiktoken env) content 1000)) (\<lambda>chunks.
             bind_io (py_print (''Processed '' @ quoted filepath @ '' into ''
                                @ str_int (int (length chunks)) @ '' chunk(s).'')) (\<lambda>_.
             pure_io (Returns chunks))))"

text \<open>
  \<^verbatim>\<open>process_directory\<close> (line 386):
  \<^verbatim>\<open>
    documents = []
    doc_id = 1
    for root, dirs, files in os.walk(directory):
        for file in files:
            filepath = os.path.join(root, file)
            chunks = process_file(filepath)
            for chunk in chunks:
                if chunk.strip():
                    documents.append({"id": f"doc{doc_id}", "text": chunk})
                    doc_id += 1
    return documents
  \<close>
  The three loops are three recursive functions over the lists they run through; the state
  of the loops is the pair of \<^verbatim>\<open>documents\<close> and \<^verbatim>\<open>doc_id\<close>.
\<close>

fun add_chunks :: "string list \<Rightarrow> document list \<times> int \<Rightarrow> document list \<times> int" where
  "add_chunks [] (documents, doc_id) = (documents, doc_id)"
| "add_chunks (chunk # chunks) (documents, doc_id) =
     (if strip chunk \<noteq> []
      then add_chunks chunks
             (documents @ [\<lparr>unit_id = ''doc'' @ str_int doc_id, unit_text = chunk\<rparr>], doc_id + 1)
      else add_chunks chunks (documents, doc_id))"

fun walk_files ::
  "'v env \<Rightarrow> string \<Rightarrow> string list \<Rightarrow> document list \<times> int \<Rightarrow> (document list \<times> int, 'v) io" where
  "walk_files env root [] st = pure_io (Returns st)"
| "walk_files env root (file # files) st =
     (let filepath = os_path_join env root file
      in bind_io (process_file env filepath) (\<lambda>chunks.
         walk_files env root files (add_chunks chunks st)))"

fun walk_dirs ::
  "'v env \<Rightarrow> (string \<times> string list \<times> string list) list \<Rightarrow> document list \<times> int
     \<Rightarrow> (document list \<times> int, 'v) io" where
  "walk_dirs env [] st = pure_io (Returns st)"
| "walk_dirs env ((root, dirs, files) # rest) st =
     bind_io (walk_files env root files st) (\<lambda>st'. walk_dirs env rest st')"

definition process_directory :: "'v env \<Rightarrow> string \<Rightarrow> (document list, 'v) io" where
  "process_directory env directory =
     bind_io (walk_dirs env (os_walk env directory) ([], 1)) (\<lambda>(documents, doc_id).
     pure_io (Returns documents))"

section \<open>Namespace selection\<close>

text \<open>
  \<^verbatim>\<open>select_or_create_namespace\<close> is defined twice. The definition of line 308 is in force:
  \<^verbatim>\<open>
    if provided_namespace is not None:
        print(f"Using provided namespace: '{provided_namespace}'")
        return provided_namespace
    if non_interactive:
        default_namespace = "default_namespace"
        print(f"Non-interactive mode: using default namespace '{default_namespace}'")
        return default_namespace
    namespace = input("Enter a namespace to use (or press Enter to use the default namespace): ").strip()
    return namespace if namespace != "" else None
  \<close>
  The definition of line 118, which it replaces, ends with
  \<^verbatim>\<open>return namespace if namespace != "" else ""\<close>. The result is \<open>None\<close> for Python's
  \<^verbatim>\<open>None\<close>.
\<close>

definition select_or_create_namespace :: "string option \<Rightarrow> bool \<Rightarrow> (string option, 'v) io" where
  "select_or_create_namespace provided_namespace non_interactive =
     (case provided_namespace of
        Some provided \<Rightarrow>
          bind_io (py_print (''Using provided namespace: '' @ quoted provided))
            (\<lambda>_. pure_io (Returns (Some provided)))
      | None \<Rightarrow>
          if non_interactive then
            bind_io (py_print (''Non-interactive mode: using default namespace ''
                               @ quoted ''default_namespace''))
              (\<lambda>_. pure_io (Returns (Some ''default_namespace'')))
          else
            bind_io (py_input ''Enter a namespace to use (or press Enter to use the default namespace): '')
              (\<lambda>line. let namespace = strip line
                      in pure_io (Returns (if namespace \<noteq> [] then Some namespace else None))))"

definition select_or_create_namespace_shadowed ::
  "string option \<Rightarrow> bool \<Rightarrow> (string option, 'v) io" where
  "select_or_create_namespace_shadowed provided_namespace non_interactive =
     (case provided_namespace of
        Some provided \<Rightarrow>
          bind_io (py_print (''Using provided namespace: '' @ quoted provided))
            (\<lambda>_. pure_io (Returns (Some provided)))
      | None \<Rightarrow>
          if non_interactive then
            bind_io (py_print (''Non-interactive mode: using default namespace ''
                               @ quoted ''default_namespace''))
              (\<lambda>_. pure_io (Returns (Some ''default_namespace'')))
          else
            bind_io (py_input ''Enter a namespace to use (or press Enter to use the default namespace): '')
              (\<lambda>line. let namespace = strip line
                      in pure_io (Returns (if namespace \<noteq> [] then Some namespace else Some []))))"

section \<open>Embedding and batched upsert\<close>

text \<open>
  \<^verbatim>\<open>embed_text\<close> (line 438): one call to the provider with the whole list of texts. The
  client is the function that gives the embeddings of the response.
\<close>

definition embed_text :: "string list \<Rightarrow> (string list \<Rightarrow> 'v list) \<Rightarrow> ('v list, 'v) io" where
  "embed_text texts client =
     bind_io (emit (EmbeddingsCreate texts)) (\<lambda>_. pure_io (Returns (client texts)))"

text \<open>
  Line 467:
  \<^verbatim>\<open>batch_size = args.batch_size if hasattr(args, 'batch_size') and args.batch_size else 100\<close>.
  An integer is true when it is not zero.
\<close>

definition batch_size_of :: "args \<Rightarrow> int" where
  "batch_size_of args =
     (case arg_batch_size args of
        None \<Rightarrow> 100
      | Some None \<Rightarrow> 100
      | Some (Some b) \<Rightarrow> if b \<noteq> 0 then b else 100)"

text \<open>
  Lines 470-477: one vector for each pair of \<^verbatim>\<open>zip(documents, embeddings)\<close>, which stops at
  the end of the shorter list.
\<close>

definition make_vectors :: "document list \<Rightarrow> 'v list \<Rightarrow> 'v vector list" where
  "make_vectors documents embeddings =
     map (\<lambda>(doc, emb). \<lparr>vec_id = unit_id doc, vec_values = emb, vec_metadata_text = unit_text doc\<rparr>)
       (zip documents embeddings)"

text \<open>
  Lines 481-484, over the list of \<^verbatim>\<open>range(0, len(vectors), batch_size)\<close>:
  \<^verbatim>\<open>
    for i in range(0, len(vectors), batch_size):
        batch = vectors[i:i + batch_size]
        index.upsert(batch, namespace=ns)
        print(f"Upserted batch {i // batch_size + 1} of {total_batches}")
  \<close>
\<close>

fun upsert_loop ::
  "string \<Rightarrow> 'v vector list \<Rightarrow> int \<Rightarrow> string \<Rightarrow> int \<Rightarrow> int list \<Rightarrow> (unit, 'v) io" where
  "upsert_loop index vectors batch_size ns total_batches [] = pure_io (Returns ())"
| "upsert_loop index vectors batch_size ns total_batches (i # rest) =
     (let batch = py_slice vectors i (i + batch_size)
      in bind_io (emit (Upsert index batch ns))
           (\<lambda>_. bind_io (py_print (''Upserted batch '' @ str_int (i div batch_size + 1)
                                   @ '' of '' @ str_int total_batches))
           (\<lambda>_. upsert_loop index vectors batch_size ns total_batches rest)))"

text \<open>
  \<^verbatim>\<open>upsert_data\<close> (line 456). The namespace of the writes is
  \<^verbatim>\<open>ns = namespace if namespace else ""\<close>: \<^verbatim>\<open>None\<close> and the empty string both give the
  empty string. \<^verbatim>\<open>args.index\<close> is written into the last line as \<^verbatim>\<open>str\<close> gives it.
\<close>

definition str_opt :: "string option \<Rightarrow> string" where
  "str_opt x = (case x of None \<Rightarrow> ''None'' | Some s \<Rightarrow> s)"

definition upsert_data ::
  "document list \<Rightarrow> string \<Rightarrow> string option \<Rightarrow> (string list \<Rightarrow> 'v list) \<Rightarrow> args \<Rightarrow> (unit, 'v) io" where
  "upsert_data documents index namespace client args =
     (let batch_size = batch_size_of args
      in bind_io (embed_text (map unit_text documents) client) (\<lambda>embeddings.
         let vectors = make_vectors documents embeddings;
             ns = (case namespace of None \<Rightarrow> [] | Some n \<Rightarrow> if n \<noteq> [] then n else [])
         in bind_io (pure_io (py_floordiv (int (length vectors) + batch_size - 1) batch_size))
              (\<lambda>total_batches.
            bind_io (pure_io (py_range 0 (int (length vectors)) batch_size)) (\<lambda>starts.
            bind_io (upsert_loop index vectors batch_size ns total_batches starts) (\<lambda>_.
            py_print (''Successfully upserted '' @ str_int (int (length vectors))
                      @ '' documents into index '' @ quoted (str_opt (arg_index args))
                      @ (if ns \<noteq> [] then '' under namespace '' @ quoted ns @ ''.'' else ''.'')))))))"

section \<open>Index selection and initialization\<close>

text \<open>
  \<^verbatim>\<open>load_config\<close> (line 214): both keys are read with the default \<^verbatim>\<open>""\<close>, and
  \<^verbatim>\<open>EnvironmentError\<close> is raised when either is empty.
\<close>

definition load_config :: "'v env \<Rightarrow> (string \<times> string, 'v) io" where
  "load_config env =
     (let pinecone_key = (case os_getenv env ''PINECONE_API_KEY'' of None \<Rightarrow> [] | Some k \<Rightarrow> k);
          openai_key = (case os_getenv env ''OPENAI_API_KEY'' of None \<Rightarrow> [] | Some k \<Rightarrow> k)
      in if pinecone_key = [] \<or> openai_key = [] then pure_io (Raises EnvironmentError)
         else pure_io (Returns (pinecone_key, openai_key)))"

text \<open>
  \<^verbatim>\<open>pc.create_index(name=..., dimension=3072, metric="cosine", spec=...)\<close> is the event
  \<open>CreateIndex name\<close>. The interactive loop of \<^verbatim>\<open>select_or_create_index\<close> (lines 270-305)
  reads at least one line in every round, so it ends on every finite input, with
  \<^verbatim>\<open>EOFError\<close> if the input runs out.
\<close>

function select_index_loop :: "string list \<Rightarrow> (string, 'v) io" where
  "select_index_loop existing_indexes w =
     (case py_input ''Do you want to (s)elect an existing index or (c)reate a new one? [s/c]: '' w of
        (Returns line, w1) \<Rightarrow>
          (let choice = str_lower (strip line)
           in if choice \<noteq> ''s'' \<and> choice \<noteq> ''c'' then
                select_index_loop existing_indexes
                  (snd (py_print ''Invalid choice. Please enter 's' to select or 'c' to create.'' w1))
              else if choice = ''s'' then
                (case py_input ''Enter the name of the existing index: '' w1 of
                   (Returns line2, w2) \<Rightarrow>
                     (let index_name = strip line2
                      in if index_name \<in> set existing_indexes then (Returns index_name, w2)
                         else
                           (case py_input (''Index '' @ quoted index_name
                                   @ '' does not exist. Would you like to create it instead? (y/n): '') w2 of
                              (Returns line3, w3) \<Rightarrow>
                                (let create_choice = str_lower (strip line3)
                                 in if create_choice = ''y'' then
                                      bind_io (py_print (''Creating new index '' @ quoted index_name @ ''...''))
                                        (\<lambda>_. bind_io (emit (CreateIndex index_name))
                                        (\<lambda>_. pure_io (Returns index_name))) w3
                                    else
                                      select_index_loop existing_indexes
                                        (snd (py_print ''Let's try again.'' w3)))
                            | (Raises e, w3) \<Rightarrow> (Raises e, w3)
                            | (Exits n, w3) \<Rightarrow> (Exits n, w3)
                            | (Diverges, w3) \<Rightarrow> (Diverges, w3)))
                 | (Raises e, w2) \<Rightarrow> (Raises e, w2)
                 | (Exits n, w2) \<Rightarrow> (Exits n, w2)
                 | (Diverges, w2) \<Rightarrow> (Diverges, w2))
              else
                bind_io (py_input ''Enter a name for the new index: '') (\<lambda>line2.
                  let index_name = strip line2
                  in if index_name \<in> set existing_indexes then
                       bind_io (py_print (''Index '' @ quoted index_name
                                          @ '' already exists. Using the existing index.''))
                         (\<lambda>_. pure_io (Returns index_name))
                     else
                       bind_io (py_print (''Creating new index '' @ quoted index_name @ ''...''))
                         (\<lambda>_. bind_io (emit (CreateIndex index_name))
                         (\<lambda>_. pure_io (Returns index_name)))) w1)
      | (Raises e, w1) \<Rightarrow> (Raises e, w1)
      | (Exits n, w1) \<Rightarrow> (Exits n, w1)
      | (Diverges, w1) \<Rightarrow> (Diverges, w1))"
  by pat_completeness auto
termination
  by (relation "measure (\<lambda>(existing_indexes, w). length (stdin w))")
     (auto simp: py_input_def py_print_def emit_def split: list.splits)

declare select_index_loop.simps [simp del]

text \<open>\<^verbatim>\<open>select_or_create_index\<close> (line 237); \<^verbatim>\<open>if provided_index:\<close> holds of a non-empty string.\<close>

definition select_or_create_index :: "'v env \<Rightarrow> string option \<Rightarrow> bool \<Rightarrow> (string, 'v) io" where
  "select_or_create_index env provided_index non_interactive =
     (let existing_indexes = list_indexes env;
          provided = (case provided_index of None \<Rightarrow> [] | Some i \<Rightarrow> i)
      in if provided \<noteq> [] then
           (if provided \<in> set existing_indexes then
              bind_io (py_print (''Using provided existing index: '' @ provided))
                (\<lambda>_. pure_io (Returns provided))
            else
              bind_io (py_print (''Provided index '' @ quoted provided @ '' does not exist. Creating it...''))
                (\<lambda>_. bind_io (emit (CreateIndex provided))
                (\<lambda>_. pure_io (Returns provided))))
         else if non_interactive then
           (let default_index = ''default_index''
            in bind_io
                 (if default_index \<notin> set existing_indexes then
                    bind_io (py_print (''Creating default index '' @ quoted default_index @ ''...''))
                      (\<lambda>_. emit (CreateIndex default_index))
                  else py_print (''Using existing default index: '' @ default_index))
                 (\<lambda>_. pure_io (Returns default_index)))
         else
           bind_io (emit (PrintList ''Existing indexes:'' existing_indexes))
             (\<lambda>_. select_index_loop existing_indexes))"

text \<open>
  \<^verbatim>\<open>initialize\<close> (line 402). The OpenAI client is the function \<open>embeddings_create\<close> of the
  environment and the Pinecone index is known by its name.
\<close>

definition initialize ::
  "'v env \<Rightarrow> args \<Rightarrow> ((string list \<Rightarrow> 'v list) \<times> string \<times> string option, 'v) io" where
  "initialize env args =
     bind_io (load_config env) (\<lambda>keys.
     bind_io (select_or_create_index env (arg_index args) (arg_non_interactive args)) (\<lambda>index_name.
     bind_io (select_or_create_namespace (arg_namespace args) (arg_non_interactive args)) (\<lambda>namespace.
     pure_io (Returns (embeddings_create env, index_name, namespace)))))"

section \<open>The main function\<close>

text \<open>
  \<^verbatim>\<open>query_pinecone\<close> (line 489): the query is embedded alone, and \<^verbatim>\<open>[0]\<close> of an empty answer
  raises \<^verbatim>\<open>IndexError\<close>.
\<close>

definition query_pinecone ::
  "'v env \<Rightarrow> string \<Rightarrow> string \<Rightarrow> string option \<Rightarrow> (string list \<Rightarrow> 'v list) \<Rightarrow> int
     \<Rightarrow> ((string \<times> string) list, 'v) io" where
  "query_pinecone env query index namespace client top_k =
     bind_io (embed_text [query] client) (\<lambda>embeddings.
       case embeddings of
         [] \<Rightarrow> pure_io (Raises IndexError)
       | query_embedding # _ \<Rightarrow>
           (let ns = (case namespace of None \<Rightarrow> [] | Some n \<Rightarrow> if n \<noteq> [] then n else [])
            in bind_io (emit (Query index ns query_embedding top_k))
                 (\<lambda>_. pure_io (Returns (index_query env ns query_embedding top_k)))))"

fun print_matches :: "(string \<times> string) list \<Rightarrow> (unit, 'v) io" where
  "print_matches [] = pure_io (Returns ())"
| "print_matches ((match_text, score) # rest) =
     bind_io (py_print (''- '' @ match_text @ '' (Score: '' @ score @ '')''))
       (\<lambda>_. print_matches rest)"

text \<open>The query loop of lines 557-569; it too reads a line in every round.\<close>

function query_loop ::
  "'v env \<Rightarrow> string \<Rightarrow> string option \<Rightarrow> (string list \<Rightarrow> 'v list) \<Rightarrow> (unit, 'v) io" where
  "query_loop env index namespace client w =
     (case py_input ''Would you like to (q)uery the index or (e)xit? [q/e]: '' w of
        (Returns line, w1) \<Rightarrow>
          (let choice = str_lower (strip line)
           in if choice = ''q'' then
                (case py_input ''Enter your query: '' w1 of
                   (Returns line2, w2) \<Rightarrow>
                     (case query_pinecone env (strip line2) index namespace client 3 w2 of
                        (Returns matches, w3) \<Rightarrow>
                          (case bind_io (py_print ([CHR 0x0A] @ ''Top Results:''))
                                  (\<lambda>_. print_matches matches) w3 of
                             (Returns u, w4) \<Rightarrow> query_loop env index namespace client w4
                           | (Raises e, w4) \<Rightarrow> (Raises e, w4)
                           | (Exits n, w4) \<Rightarrow> (Exits n, w4)
                           | (Diverges, w4) \<Rightarrow> (Diverges, w4))
                      | (Raises e, w3) \<Rightarrow> (Raises e, w3)
                      | (Exits n, w3) \<Rightarrow> (Exits n, w3)
                      | (Diverges, w3) \<Rightarrow> (Diverges, w3))
                 | (Raises e, w2) \<Rightarrow> (Raises e, w2)
                 | (Exits n, w2) \<Rightarrow> (Exits n, w2)
                 | (Diverges, w2) \<Rightarrow> (Diverges, w2))
              else if choice = ''e'' then py_print ''Exiting. Goodbye!'' w1
              else
                query_loop env index namespace client
                  (snd (py_print ''Invalid option. Please enter 'q' to query or 'e' to exit.'' w1)))
      | (Raises e, w1) \<Rightarrow> (Raises e, w1)
      | (Exits n, w1) \<Rightarrow> (Exits n, w1)
      | (Diverges, w1) \<Rightarrow> (Diverges, w1))"
  by pat_completeness auto
termination
proof (relation "measure (\<lambda>(env, index, namespace, client, w). length (stdin w))", goal_cases)
  case 1
  show ?case by simp
next
  case (2 env index namespace client w x1 w1 line choice x1a w2 line2 x1b w3 matches x1c w4 u)
  have pm: "stdin (snd (print_matches ms v)) = stdin v" for ms and v :: "'a world"
    by (induction ms arbitrary: v)
       (auto simp: pure_io_def bind_io_def py_print_def emit_def split: prod.splits result.splits)
  have pm2: "stdin v' = stdin v" if "(r, v') = print_matches ms v"
    for ms r and v v' :: "'a world"
    using that pm[of ms v] by (metis snd_conv)
  have qp: "stdin v' = stdin v" if "(r, v') = query_pinecone env q index namespace client 3 v"
    for q r and v v' :: "'a world"
    using that[symmetric]
    by (auto simp: query_pinecone_def embed_text_def bind_io_def emit_def pure_io_def Let_def
        split: prod.splits result.splits list.splits)
  have "(Returns u, w4) = print_matches matches (snd (py_print ([CHR 0x0A] @ ''Top Results:'') w3))"
    using 2 by (simp add: bind_io_def py_print_def emit_def)
  then have "stdin w4 = stdin w3"
    using pm2 by (fastforce simp: py_print_def emit_def)
  moreover have "stdin w3 = stdin w2"
    using 2 qp by blast
  moreover have "length (stdin w2) \<le> length (stdin w1)"
    using 2 by (auto simp: py_input_def split: list.splits)
  moreover have "length (stdin w1) < length (stdin w)"
    using 2 by (auto simp: py_input_def split: list.splits)
  ultimately show ?case by simp
next
  case 3
  then show ?case
    by (auto simp: py_input_def py_print_def emit_def split: list.splits)
qed

declare query_loop.simps [simp del]

text \<open>\<^verbatim>\<open>get_directory\<close> (line 515); \<^verbatim>\<open>if args.directory:\<close> holds of a non-empty string.\<close>

definition get_directory :: "'v env \<Rightarrow> args \<Rightarrow> (string, 'v) io" where
  "get_directory env args =
     (let provided = (case arg_directory args of None \<Rightarrow> [] | Some d \<Rightarrow> d)
      in bind_io
           (if provided \<noteq> [] then pure_io (Returns provided)
            else if arg_non_interactive args then
              bind_io (py_print (''Non-interactive mode: using default directory '' @ quoted ''./documents''))
                (\<lambda>_. pure_io (Returns ''./documents''))
            else
              bind_io (py_input ''Enter the path to the directory containing your files: '')
                (\<lambda>line. pure_io (Returns (strip line))))
           (\<lambda>directory.
              if \<not> os_path_isdir env directory then
                bind_io (py_print (''Directory '' @ quoted directory @ '' is invalid. Exiting.''))
                  (\<lambda>_. pure_io (Exits 1))
              else if \<not> os_access_R_OK env directory then
                bind_io (py_print (''Directory '' @ quoted directory @ '' is not readable. Exiting.''))
                  (\<lambda>_. pure_io (Exits 1))
              else pure_io (Returns directory)))"

text \<open>
  \<^verbatim>\<open>main\<close> (line 431), from the parsed arguments on. \<^verbatim>\<open>sys.exit(1)\<close> is the result
  \<open>Exits 1\<close>; a run that returns (\<open>Returns ()\<close>) ends with exit status 0.
\<close>

definition main :: "'v env \<Rightarrow> args \<Rightarrow> (unit, 'v) io" where
  "main env args =
     bind_io (get_directory env args) (\<lambda>directory.
     bind_io (py_print ''Processing files in directory. This may take a while...'') (\<lambda>_.
     bind_io (process_directory env directory) (\<lambda>documents.
       if documents = [] then
         bind_io (py_print ''No valid documents found. Exiting.'') (\<lambda>_. pure_io (Exits 1))
       else
         bind_io (initialize env args) (\<lambda>(client, index, namespace).
         bind_io (upsert_data documents index namespace client args) (\<lambda>_.
           if \<not> arg_non_interactive args then query_loop env index namespace client
           else py_print ''Non-interactive mode complete. Exiting.'')))))"

section \<open>Sample inputs\<close>

text \<open>
  A tokenizer for the examples: two tokens for each character (its code divided by 16 and the
  remainder), decoded two by two; a token left alone at the end of a window decodes to a
  question mark. Decoding what it encoded gives the text back (\<open>nibble_decode_encode\<close>).
\<close>

definition nibble_encode :: "string \<Rightarrow> int list" where
  "nibble_encode s = concat (map (\<lambda>c. [of_char c div 16, of_char c mod 16]) s)"

definition nibble_decode :: "int list \<Rightarrow> string" where
  "nibble_decode ws =
     map (\<lambda>i. char_of (16 * (ws ! (2 * i)) + ws ! (2 * i + 1))) [0..<length ws div 2]
     @ (if odd (length ws) then ''?'' else [])"

definition nibble_tokenizer :: tokenizer where
  "nibble_tokenizer = \<lparr>enc_encode = nibble_encode, enc_decode = nibble_decode,
      tokenize_text = Some nibble_encode\<rparr>"

text \<open>
  Four Document Units, the arguments of a non-interactive run, an embedding client that
  answers one number for each text (its length), a client that leaves the last text
  without a vector, and the world before a run.
\<close>

definition sample_documents :: "document list" where
  "sample_documents =
     [\<lparr>unit_id = ''doc1'', unit_text = ''alpha''\<rparr>, \<lparr>unit_id = ''doc2'', unit_text = ''beta''\<rparr>,
      \<lparr>unit_id = ''doc3'', unit_text = ''gamma''\<rparr>, \<lparr>unit_id = ''doc4'', unit_text = ''delta''\<rparr>]"

definition sample_args :: args where
  "sample_args = \<lparr>arg_index = Some ''idx'', arg_namespace = None, arg_directory = Some ''docs'',
     arg_non_interactive = True, arg_batch_size = None\<rparr>"

definition length_client :: "string list \<Rightarrow> nat list" where
  "length_client texts = map length texts"

definition short_client :: "string list \<Rightarrow> nat list" where
  "short_client texts = map length (butlast texts)"

definition empty_world :: "nat world" where
  "empty_world = \<lparr>stdin = [], trace = []\<rparr>"

text \<open>
  A directory \<^verbatim>\<open>docs\<close> with a text file, a PDF file that the parser rejects, a file of
  blanks and a file of an unknown type, with the sample tokenizer bound to \<^verbatim>\<open>tokenize_text\<close>;
  and the same directory holding only files that cannot be read.
\<close>

definition sample_env :: "nat env" where
  "sample_env =
     \<lparr>tiktoken = nibble_tokenizer,
      os_walk = (\<lambda>d. if d = ''docs''
                      then [(''docs'', [], [''a.txt'', ''broken.pdf'', ''blank.md'', ''notes.bin''])]
                      else []),
      os_path_join = (\<lambda>a b. a @ ''/'' @ b),
      os_path_splitext = (\<lambda>p. (takeWhile (\<lambda>c. c \<noteq> CHR ''.'') p, dropWhile (\<lambda>c. c \<noteq> CHR ''.'') p)),
      os_path_isdir = (\<lambda>d. d = ''docs''),
      os_access_R_OK = (\<lambda>d. True),
      has_PyPDF2 = True,
      has_docx = False,
      read_text = (\<lambda>p. if p = ''docs/a.txt'' then Inr ''hello''
                        else if p = ''docs/blank.md'' then Inr ''  ''
                        else if p = ''docs/notes.bin'' then Inr ''raw''
                        else Inl (IOError ''No such file'')),
      open_rb = (\<lambda>p. None),
      pdf_pages = (\<lambda>p. Inl (OtherException ''EOF marker not found'')),
      docx_paragraphs = (\<lambda>p. Inr []),
      os_getenv = (\<lambda>k. Some ''key''),
      list_indexes = [],
      embeddings_create = map length,
      index_query = (\<lambda>ns v k. [])\<rparr>"


definition unreadable_env :: "nat env" where
  "unreadable_env = sample_env\<lparr>os_walk := (\<lambda>d. [(''docs'', [], [''broken.pdf'', ''gone.txt''])])\<rparr>"


section \<open>Auxiliary functions for the proofs\<close>

text \<open>The windows of width \<open>m\<close> of a list from position \<open>s\<close> on, as a total function.\<close>

function slices :: "'a list \<Rightarrow> nat \<Rightarrow> nat \<Rightarrow> 'a list list" where
  "slices xs m s = (if 0 < m \<and> s < length xs then take m (drop s xs) # slices xs m (s + m) else [])"
  by pat_completeness auto
termination
  by (relation "measure (\<lambda>(xs, m, s). length xs - s)") auto

declare slices.simps [simp del]



definition file_result :: "'v env \<Rightarrow> string \<Rightarrow> string list result" where
  "file_result env filepath =
     (case extract_text env filepath (str_lower (snd (os_path_splitext env filepath))) of
        Inl f \<Rightarrow> Returns []
      | Inr content \<Rightarrow> chunk_text (tiktoken env) content 1000)"


definition result_bind :: "'a result \<Rightarrow> ('a \<Rightarrow> 'b result) \<Rightarrow> 'b result" where
  "result_bind r f =
     (case r of Returns a \<Rightarrow> f a | Raises e \<Rightarrow> Raises e | Exits n \<Rightarrow> Exits n | Diverges \<Rightarrow> Diverges)"

fun collect_files ::
  "'v env \<Rightarrow> string \<Rightarrow> string list \<Rightarrow> document list \<times> int \<Rightarrow> (document list \<times> int) result" where
  "collect_files env root [] st = Returns st"
| "collect_files env root (file # files) st =
     result_bind (file_result env (os_path_join env root file))
       (\<lambda>chunks. collect_files env root files (add_chunks chunks st))"

fun collect_dirs ::
  "'v env \<Rightarrow> (string \<times> string list \<times> string list) list \<Rightarrow> document list \<times> int
     \<Rightarrow> (document list \<times> int) result" where
  "collect_dirs env [] st = Returns st"
| "collect_dirs env ((root, dirs, files) # rest) st =
     result_bind (collect_files env root files st) (\<lambda>st'. collect_dirs env rest st')"


section \<open>Properties\<close>

subsection \<open>Slices and the chunking loop\<close>

lemma py_slice_nat:
  "py_slice xs (int s) (int s + int m) = take m (drop s xs)"
proof (cases "s \<le> length xs")
  case True
  show ?thesis
  proof (cases "s + m \<le> length xs")
    case True
    with \<open>s \<le> length xs\<close> show ?thesis
      by (simp add: py_slice_def py_bound_def Let_def min_def nat_add_distrib)
  next
    case False
    with \<open>s \<le> length xs\<close> show ?thesis
      by (simp add: py_slice_def py_bound_def Let_def min_def nat_diff_distrib)
  qed
next
  case False
  then show ?thesis
    by (simp add: py_slice_def py_bound_def Let_def min_def)
qed


lemma concat_slices: "0 < m \<Longrightarrow> concat (slices xs m s) = drop s xs"
proof (induction xs m s rule: slices.induct)
  case (1 xs m s)
  show ?case
  proof (cases "s < length xs")
    case True
    with 1 have "concat (slices xs m s) = take m (drop s xs) @ drop (s + m) xs"
      by (subst slices.simps) simp
    also have "\<dots> = drop s xs"
      by (metis add.commute append_take_drop_id drop_drop)
    finally show ?thesis .
  next
    case False
    then show ?thesis by (subst slices.simps) simp
  qed
qed

lemma ceil_div_pos:
  fixes m d :: nat
  assumes "0 < m" "0 < d"
  shows "(d + m - 1) div m = Suc ((d - 1) div m)"
proof -
  have "m \<le> d + m - 1" using assms by linarith
  then have "(d + m - 1) div m = Suc ((d + m - 1 - m) div m)"
    by (rule le_div_geq[OF assms(1)])
  moreover have "d + m - 1 - m = d - 1" using assms by linarith
  ultimately show ?thesis by (simp only:)
qed

lemma ceil_div_step:
  fixes m d :: nat
  assumes "0 < m" "0 < d"
  shows "(d + m - 1) div m = Suc ((d - m + m - 1) div m)"
proof (cases "m \<le> d")
  case True
  then have "d - m + m - 1 = d - 1" using assms by linarith
  then show ?thesis using ceil_div_pos[OF assms] by (simp only:)
next
  case False
  then have "(d - 1) div m = 0" "(d - m + m - 1) div m = 0" using assms by simp_all
  then show ?thesis using ceil_div_pos[OF assms] by (simp only:)
qed

lemma slices_closed:
  assumes "0 < m"
  shows "slices xs m s = map (\<lambda>i. take m (drop (s + i * m) xs)) [0..<(length xs - s + m - 1) div m]"
proof (induction "length xs - s" arbitrary: s rule: less_induct)
  case less
  show ?case
  proof (cases "s < length xs")
    case True
    define k where "k = (length xs - (s + m) + m - 1) div m"
    have "(length xs - s + m - 1) div m = Suc ((length xs - s - m + m - 1) div m)"
      using True assms by (intro ceil_div_step) simp_all
    then have k: "(length xs - s + m - 1) div m = Suc k"
      by (simp add: k_def)
    have ih: "slices xs m (s + m) = map (\<lambda>i. take m (drop (s + m + i * m) xs)) [0..<k]"
      unfolding k_def using True assms by (intro less) linarith
    have "slices xs m s = take m (drop s xs) # slices xs m (s + m)"
      using True assms by (subst slices.simps) simp
    also have "\<dots> = map (\<lambda>i. take m (drop (s + i * m) xs)) [0..<Suc k]"
    proof -
      have e: "[0..<Suc k] = 0 # map Suc [0..<k]"
        by (simp only: map_Suc_upt upt_conv_Cons[of 0 "Suc k"] zero_less_Suc if_True)
      have "map (\<lambda>i. take m (drop (s + i * m) xs)) (0 # map Suc [0..<k])
            = take m (drop s xs) # map (\<lambda>i. take m (drop (s + m + i * m) xs)) [0..<k]"
        by (simp add: o_def ac_simps)
      then show ?thesis by (simp only: e ih)
    qed
    finally show ?thesis by (simp only: k)
  next
    case False
    then have "(length xs - s + m - 1) div m = 0" using assms by simp
    with False show ?thesis by (subst slices.simps) simp
  qed
qed


lemma slices_zero:
  assumes "0 < m"
  shows "slices xs m 0 = map (\<lambda>i. take m (drop (i * m) xs)) [0..<(length xs + m - 1) div m]"
  using slices_closed[OF assms, of xs 0] by simp

lemma length_slices: "0 < m \<Longrightarrow> length (slices xs m 0) = (length xs + m - 1) div m"
  by (simp add: slices_zero)

lemma nth_slices:
  "0 < m \<Longrightarrow> i < length (slices xs m 0) \<Longrightarrow> slices xs m 0 ! i = take m (drop (i * m) xs)"
  by (simp add: slices_zero)

lemma full_slices:
  assumes "0 < m" "Suc i < length (slices xs m 0)"
  shows "length (slices xs m 0 ! i) = m"
proof -
  have pos: "0 < length xs"
    using assms by (cases "length xs = 0") (simp_all add: length_slices)
  have "length (slices xs m 0) = Suc ((length xs - 1) div m)"
    by (simp only: length_slices[OF assms(1)] ceil_div_pos[OF assms(1) pos])
  with assms(2) have "Suc i \<le> (length xs - 1) div m" by simp
  then have "Suc i * m \<le> (length xs - 1) div m * m" by (rule mult_le_mono1)
  also have "\<dots> \<le> length xs - 1" by simp
  finally have "i * m + m \<le> length xs" using pos by simp
  moreover have "i < length (slices xs m 0)" using assms(2) by simp
  ultimately show ?thesis using assms(1) by (simp add: nth_slices)
qed

lemma last_slices:
  assumes "0 < m" "0 < length xs"
  shows "slices xs m 0 \<noteq> []"
    and "0 < length (last (slices xs m 0))"
    and "length (last (slices xs m 0)) \<le> m"
    and "(length (slices xs m 0) - 1) * m + length (last (slices xs m 0)) = length xs"
proof -
  let ?q = "(length xs - 1) div m"
  have len: "length (slices xs m 0) = Suc ?q"
    by (simp only: length_slices[OF assms(1)] ceil_div_pos[OF assms])
  then show ne: "slices xs m 0 \<noteq> []" by auto
  have "last (slices xs m 0) = slices xs m 0 ! ?q"
    using ne len by (simp add: last_conv_nth)
  also have "\<dots> = take m (drop (?q * m) xs)"
    using len assms(1) by (simp add: nth_slices)
  finally have l: "last (slices xs m 0) = take m (drop (?q * m) xs)" .
  have a: "?q * m \<le> length xs - 1" by simp
  have "length xs - 1 = ?q * m + (length xs - 1) mod m" by simp
  moreover have "(length xs - 1) mod m < m" using assms(1) by simp
  ultimately have b: "length xs - 1 < ?q * m + m" by linarith
  from a b assms(2) have c: "?q * m < length xs" "length xs - ?q * m \<le> m" by linarith+
  then have ll: "length (last (slices xs m 0)) = length xs - ?q * m"
    by (simp add: l)
  show "0 < length (last (slices xs m 0))" using c ll by simp
  show "length (last (slices xs m 0)) \<le> m" using c ll by simp
  show "(length (slices xs m 0) - 1) * m + length (last (slices xs m 0)) = length xs"
    using c ll len by simp
qed



lemma chunk_text_shadowed_single:
  "int (length (enc_encode enc text)) \<le> max_tokens \<Longrightarrow>
   chunk_text_shadowed enc text max_tokens = Returns [text]"
  by (simp add: chunk_text_shadowed_def)





subsection \<open>The sample tokenizer loses nothing\<close>

lemma nibble_decode_pair:
  "nibble_decode (a # b # ws) = char_of (16 * a + b) # nibble_decode ws"
proof -
  have e: "[0..<Suc (length ws div 2)] = 0 # map Suc [0..<length ws div 2]"
    by (simp add: upt_conv_Cons map_Suc_upt del: upt_Suc)
  have l: "length (a # b # ws) div 2 = Suc (length ws div 2)" by simp
  show ?thesis
    unfolding nibble_decode_def l e by (simp add: o_def del: upt_Suc)
qed

lemma nibble_decode_encode: "nibble_decode (nibble_encode s) = s"
proof (induction s)
  case Nil
  show ?case by (simp add: nibble_encode_def nibble_decode_def)
next
  case (Cons c s)
  have "nibble_encode (c # s) = of_char c div 16 # of_char c mod 16 # nibble_encode s"
    by (simp add: nibble_encode_def)
  moreover have "char_of (16 * (of_char c div 16 :: int) + of_char c mod 16) = c"
    by (simp add: mult_div_mod_eq)
  ultimately show ?case by (simp add: nibble_decode_pair Cons)
qed

subsection \<open>Chunking claims\<close>



text \<open>
  Claim C5, at the input where the code departs from it. In the module as it stands the name
  \<^verbatim>\<open>tokenize_text\<close> is unbound, so \<^verbatim>\<open>chunk_text\<close> raises \<^verbatim>\<open>NameError\<close> on the empty text
  (as on every text) where the claim promises the one-element list holding the text. With
  the name bound to the encoder, and in the definition of line 131, the text comes back
  unchanged (\<open>chunk_text_single\<close>, \<open>chunk_text_shadowed_single\<close>).
\<close>

theorem chunk_text_unbound_name:
  "chunk_text \<lparr>enc_encode = nibble_encode, enc_decode = nibble_decode, tokenize_text = None\<rparr> [] 1000
   = Raises NameError"
  by (simp add: chunk_text_def)




subsection \<open>The upsert loop\<close>

lemma upserts_of_append: "upserts_of (xs @ ys) = upserts_of xs @ upserts_of ys"
  by (induction xs rule: upserts_of.induct) simp_all

lemma embed_calls_of_append: "embed_calls_of (xs @ ys) = embed_calls_of xs @ embed_calls_of ys"
  by (induction xs rule: embed_calls_of.induct) simp_all

lemma range_down_nonneg: "0 \<le> n \<Longrightarrow> range_down 0 n b = []"
  by (subst range_down.simps) simp

lemma upsert_loop_slices:
  assumes "0 < m"
  shows "\<exists>w'. upsert_loop index vectors (int m) ns tb
                 (range_up (int s) (int (length vectors)) (int m)) w = (Returns (), w')
             \<and> stdin w' = stdin w
             \<and> embed_calls_of (trace w') = embed_calls_of (trace w)
             \<and> upserts_of (trace w') = upserts_of (trace w) @ map (\<lambda>b. (b, ns)) (slices vectors m s)"
proof (induction "length vectors - s" arbitrary: s w rule: less_induct)
  case less
  show ?case
  proof (cases "s < length vectors")
    case True
    let ?w1 = "w\<lparr>trace := trace w @ [Upsert index (take m (drop s vectors)) ns,
        Print (''Upserted batch '' @ str_int (int s div int m + 1) @ '' of '' @ str_int tb)]\<rparr>"
    have r: "range_up (int s) (int (length vectors)) (int m)
             = int s # range_up (int (s + m)) (int (length vectors)) (int m)"
      using True assms by (subst range_up.simps) simp
    have step: "upsert_loop index vectors (int m) ns tb
                  (range_up (int s) (int (length vectors)) (int m)) w
                = upsert_loop index vectors (int m) ns tb
                  (range_up (int (s + m)) (int (length vectors)) (int m)) ?w1"
      by (simp add: r Let_def py_slice_nat bind_io_def emit_def py_print_def)
    have "length vectors - (s + m) < length vectors - s" using True assms by linarith
    from less[OF this, of ?w1] obtain w' where w':
      "upsert_loop index vectors (int m) ns tb
         (range_up (int (s + m)) (int (length vectors)) (int m)) ?w1 = (Returns (), w')"
      "stdin w' = stdin ?w1"
      "embed_calls_of (trace w') = embed_calls_of (trace ?w1)"
      "upserts_of (trace w') = upserts_of (trace ?w1) @ map (\<lambda>b. (b, ns)) (slices vectors m (s + m))"
      by blast
    have sl: "slices vectors m s = take m (drop s vectors) # slices vectors m (s + m)"
      using True assms by (subst slices.simps) simp
    show ?thesis
      using w' by (intro exI[of _ w']) (simp add: step sl upserts_of_append embed_calls_of_append)
  next
    case False
    then have "range_up (int s) (int (length vectors)) (int m) = []"
      by (subst range_up.simps) simp
    moreover have "slices vectors m s = []" using False by (subst slices.simps) simp
    ultimately show ?thesis by (simp add: pure_io_def)
  qed
qed

lemma batch_size_of_nonzero: "batch_size_of args \<noteq> 0"
  by (simp add: batch_size_of_def split: option.splits)

lemma ns_simp:
  "(case namespace of None \<Rightarrow> [] | Some n \<Rightarrow> if n \<noteq> [] then n else [])
   = (case namespace of None \<Rightarrow> [] | Some n \<Rightarrow> n)"
  by (simp split: option.splits)

lemma upsert_data_result:
  fixes client :: "string list \<Rightarrow> 'v list"
  shows "\<exists>w'. upsert_data documents index namespace client args w = (Returns (), w')
          \<and> stdin w' = stdin w
          \<and> embed_calls_of (trace w') = embed_calls_of (trace w) @ [map unit_text documents]
          \<and> upserts_of (trace w') = upserts_of (trace w) @
               (if 0 < batch_size_of args
                then map (\<lambda>b. (b, case namespace of None \<Rightarrow> [] | Some n \<Rightarrow> n))
                       (slices (make_vectors documents (client (map unit_text documents)))
                          (nat (batch_size_of args)) 0)
                else [])"
proof -
  let ?B = "batch_size_of args"
  let ?vs = "make_vectors documents (client (map unit_text documents))"
  let ?ns = "case namespace of None \<Rightarrow> [] | Some n \<Rightarrow> n"
  let ?tb = "(int (length ?vs) + ?B - 1) div ?B"
  let ?w0 = "w\<lparr>trace := trace w @ [EmbeddingsCreate (map unit_text documents)]\<rparr>"
  let ?msg = "''Successfully upserted '' @ str_int (int (length ?vs))
              @ '' documents into index '' @ quoted (str_opt (arg_index args))
              @ (if ?ns \<noteq> [] then '' under namespace '' @ quoted ?ns @ ''.'' else ''.'')"
  have nz: "?B \<noteq> 0" by (rule batch_size_of_nonzero)
  show ?thesis
  proof (cases "0 < ?B")
    case True
    then have m: "0 < nat ?B" by simp
    from upsert_loop_slices[OF m, of index ?vs ?ns ?tb 0 ?w0] True
    obtain w1 where w1:
      "upsert_loop index ?vs ?B ?ns ?tb (range_up 0 (int (length ?vs)) ?B) ?w0 = (Returns (), w1)"
      "stdin w1 = stdin ?w0"
      "embed_calls_of (trace w1) = embed_calls_of (trace ?w0)"
      "upserts_of (trace w1) = upserts_of (trace ?w0) @ map (\<lambda>b. (b, ?ns)) (slices ?vs (nat ?B) 0)"
      by auto
    let ?w2 = "w1\<lparr>trace := trace w1 @ [Print ?msg]\<rparr>"
    have "upsert_data documents index namespace client args w = (Returns (), ?w2)"
      using True w1(1)
      by (simp add: upsert_data_def embed_text_def Let_def bind_io_def emit_def pure_io_def
          py_floordiv_def py_range_def py_print_def ns_simp)
    moreover have "stdin ?w2 = stdin w" using w1(2) by simp
    moreover have "embed_calls_of (trace ?w2) = embed_calls_of (trace w) @ [map unit_text documents]"
      using w1(3) by (simp add: embed_calls_of_append)
    moreover have "upserts_of (trace ?w2) = upserts_of (trace w) @
         map (\<lambda>b. (b, ?ns)) (slices ?vs (nat ?B) 0)"
      using w1(4) by (simp add: upserts_of_append)
    ultimately show ?thesis using True by (intro exI[of _ ?w2]) simp
  next
    case False
    let ?w2 = "?w0\<lparr>trace := trace ?w0 @ [Print ?msg]\<rparr>"
    have "upsert_data documents index namespace client args w = (Returns (), ?w2)"
      using False nz
      by (simp add: upsert_data_def embed_text_def Let_def bind_io_def emit_def pure_io_def
          py_floordiv_def py_range_def py_print_def ns_simp range_down_nonneg)
    then show ?thesis using False
      by (intro exI[of _ ?w2]) (simp add: upserts_of_append embed_calls_of_append)
  qed
qed

lemma ceil_div_int:
  assumes "0 < (B::int)"
  shows "int ((n + nat B - 1) div nat B) = (int n + B - 1) div B"
proof -
  have "int (n + nat B - 1) = int n + B - 1"
    using assms by (simp add: of_nat_diff)
  then show ?thesis using assms by (simp add: zdiv_int)
qed

lemma last_slices_size:
  assumes "0 < m" "0 < length xs"
  shows "length (last (slices xs m 0)) = (if length xs mod m = 0 then m else length xs mod m)"
proof -
  let ?l = "length (last (slices xs m 0))"
  let ?q = "length (slices xs m 0) - 1"
  note f = last_slices[OF assms]
  show ?thesis
  proof (cases "?l = m")
    case True
    with f(4) have "length xs = (?q + 1) * m" by simp
    then have "length xs mod m = 0" by (metis mod_mult_self2_is_0)
    with True show ?thesis by simp
  next
    case False
    with f(3) have lt: "?l < m" by simp
    have "length xs mod m = (?l + ?q * m) mod m" using f(4) by (simp add: add.commute)
    also have "\<dots> = ?l" using lt by simp
    finally show ?thesis using f(2) by simp
  qed
qed

lemma make_vectors_ids:
  "length embeddings = length documents \<Longrightarrow>
   map vec_id (make_vectors documents embeddings) = map unit_id documents"
  by (induction documents embeddings rule: list_induct2') (simp_all add: make_vectors_def)

lemma make_vectors_zip:
  "map vec_id (make_vectors documents embeddings)
     = map unit_id (take (min (length documents) (length embeddings)) documents)
   \<and> map vec_values (make_vectors documents embeddings)
     = take (min (length documents) (length embeddings)) embeddings
   \<and> map vec_metadata_text (make_vectors documents embeddings)
     = map unit_text (take (min (length documents) (length embeddings)) documents)"
  by (induction documents embeddings rule: list_induct2') (simp_all add: make_vectors_def)

lemma length_make_vectors:
  "length (make_vectors documents embeddings) = min (length documents) (length embeddings)"
  by (simp add: make_vectors_def)


lemmas eval_defs = upsert_data_def embed_text_def Let_def bind_io_def emit_def pure_io_def
  py_floordiv_def py_range_def py_print_def batch_size_of_def make_vectors_def
  range_up.simps range_down.simps py_slice_def py_bound_def
  sample_documents_def sample_args_def length_client_def short_client_def empty_world_def


subsection \<open>Upsert and namespace claims\<close>

text \<open>
  Claim C8. With a positive batch size \<open>B\<close> and an embedding provider that answers one vector
  for each text, \<^verbatim>\<open>upsert_data\<close> on \<open>N\<close> units returns after exactly \<open>ceil(N / B)\<close> calls of
  \<^verbatim>\<open>index.upsert\<close>, issued one after the other in slice order: the call number \<open>k\<close> (from zero)
  writes the units \<open>k * B\<close> to \<open>(k + 1) * B - 1\<close>, every batch but the last has \<open>B\<close> units, the
  last one has \<open>N mod B\<close> units if that is not zero and \<open>B\<close> otherwise, and the batches put
  together are the units, each one once and in order.
\<close>

theorem upsert_data_batches:
  fixes client :: "string list \<Rightarrow> 'v list"
  assumes pos: "0 < batch_size_of args"
    and contract: "length (client (map unit_text documents)) = length documents"
  shows "\<exists>w' batches.
           upsert_data documents index namespace client args w = (Returns (), w')
         \<and> upserts_of (trace w') = upserts_of (trace w)
             @ map (\<lambda>b. (b, case namespace of None \<Rightarrow> [] | Some n \<Rightarrow> n)) batches
         \<and> int (length batches)
             = (int (length documents) + batch_size_of args - 1) div batch_size_of args
         \<and> concat batches = make_vectors documents (client (map unit_text documents))
         \<and> map vec_id (concat batches) = map unit_id documents
         \<and> (\<forall>k < length batches. batches ! k
               = take (nat (batch_size_of args)) (drop (k * nat (batch_size_of args))
                   (make_vectors documents (client (map unit_text documents)))))
         \<and> (\<forall>k. Suc k < length batches \<longrightarrow> length (batches ! k) = nat (batch_size_of args))
         \<and> (batches \<noteq> [] \<longrightarrow> length (last batches)
               = (if length documents mod nat (batch_size_of args) = 0
                  then nat (batch_size_of args)
                  else length documents mod nat (batch_size_of args)))"
proof -
  let ?B = "batch_size_of args"
  let ?m = "nat ?B"
  let ?vs = "make_vectors documents (client (map unit_text documents))"
  let ?bs = "slices ?vs ?m 0"
  have m: "0 < ?m" using pos by simp
  have n: "length ?vs = length documents" using contract by (simp add: length_make_vectors)
  from upsert_data_result[of documents index namespace client args w] pos
  obtain w' where w': "upsert_data documents index namespace client args w = (Returns (), w')"
    and u: "upserts_of (trace w') = upserts_of (trace w)
             @ map (\<lambda>b. (b, case namespace of None \<Rightarrow> [] | Some n \<Rightarrow> n)) ?bs"
    by auto
  have 3: "int (length ?bs) = (int (length documents) + ?B - 1) div ?B"
    using ceil_div_int[OF pos, of "length documents"] by (simp add: length_slices[OF m] n)
  have 4: "concat ?bs = ?vs" by (simp add: concat_slices[OF m])
  have 5: "map vec_id (concat ?bs) = map unit_id documents"
    by (simp only: 4 make_vectors_ids[OF contract])
  have 6: "\<forall>k < length ?bs. ?bs ! k = take ?m (drop (k * ?m) ?vs)"
    by (simp add: nth_slices[OF m])
  have 7: "\<forall>k. Suc k < length ?bs \<longrightarrow> length (?bs ! k) = ?m"
    using full_slices[OF m] by blast
  have 8: "?bs \<noteq> [] \<longrightarrow> length (last ?bs)
             = (if length documents mod ?m = 0 then ?m else length documents mod ?m)"
  proof
    assume "?bs \<noteq> []"
    then have "0 < length ?vs"
      using m by (subst (asm) slices.simps) (simp split: if_splits)
    from last_slices_size[OF m this] show "length (last ?bs)
             = (if length documents mod ?m = 0 then ?m else length documents mod ?m)"
      by (simp only: n)
  qed
  show ?thesis
    by (intro exI[of _ w'] exI[of _ ?bs] conjI w' u 3 4 5 6 7 8)
qed

theorem upsert_data_batches_witness:
  "0 < batch_size_of (sample_args\<lparr>arg_batch_size := Some (Some 3)\<rparr>)
   \<and> length (length_client (map unit_text sample_documents)) = length sample_documents
   \<and> upserts_of (trace (snd (upsert_data sample_documents ''idx'' None length_client
          (sample_args\<lparr>arg_batch_size := Some (Some 3)\<rparr>) empty_world)))
       = [([\<lparr>vec_id = ''doc1'', vec_values = 5, vec_metadata_text = ''alpha''\<rparr>,
            \<lparr>vec_id = ''doc2'', vec_values = 4, vec_metadata_text = ''beta''\<rparr>,
            \<lparr>vec_id = ''doc3'', vec_values = 5, vec_metadata_text = ''gamma''\<rparr>], []),
          ([\<lparr>vec_id = ''doc4'', vec_values = 5, vec_metadata_text = ''delta''\<rparr>], [])]
   \<and> (\<exists>w' batches.
          upsert_data sample_documents ''idx'' None length_client
            (sample_args\<lparr>arg_batch_size := Some (Some 3)\<rparr>) empty_world = (Returns (), w')
        \<and> upserts_of (trace w') = upserts_of (trace empty_world) @ map (\<lambda>b. (b, [])) batches
        \<and> int (length batches) = (int (length sample_documents) + 3 - 1) div 3
        \<and> map vec_id (concat batches) = map unit_id sample_documents)"
proof -
  let ?args = "sample_args\<lparr>arg_batch_size := Some (Some 3)\<rparr>"
  have b: "batch_size_of ?args = 3" by (simp add: batch_size_of_def sample_args_def)
  have h1: "0 < batch_size_of ?args" by (simp add: b)
  have h2: "length (length_client (map unit_text sample_documents)) = length sample_documents"
    by (simp add: length_client_def)
  have e: "upserts_of (trace (snd (upsert_data sample_documents ''idx'' None length_client
          ?args empty_world)))
       = [([\<lparr>vec_id = ''doc1'', vec_values = 5, vec_metadata_text = ''alpha''\<rparr>,
            \<lparr>vec_id = ''doc2'', vec_values = 4, vec_metadata_text = ''beta''\<rparr>,
            \<lparr>vec_id = ''doc3'', vec_values = 5, vec_metadata_text = ''gamma''\<rparr>], []),
          ([\<lparr>vec_id = ''doc4'', vec_values = 5, vec_metadata_text = ''delta''\<rparr>], [])]"
    by (simp add: eval_defs)
  from upsert_data_batches[where args = "?args" and client = length_client
      and documents = sample_documents and index = "''idx''" and namespace = None
      and w = empty_world, OF h1 h2]
  have "\<exists>w' batches.
          upsert_data sample_documents ''idx'' None length_client ?args empty_world = (Returns (), w')
        \<and> upserts_of (trace w') = upserts_of (trace empty_world) @ map (\<lambda>b. (b, [])) batches
        \<and> int (length batches) = (int (length sample_documents) + batch_size_of ?args - 1)
              div batch_size_of ?args
        \<and> map vec_id (concat batches) = map unit_id sample_documents"
    by (simp only: option.case) blast
  then have ex: "\<exists>w' batches.
          upsert_data sample_documents ''idx'' None length_client ?args empty_world = (Returns (), w')
        \<and> upserts_of (trace w') = upserts_of (trace empty_world) @ map (\<lambda>b. (b, [])) batches
        \<and> int (length batches) = (int (length sample_documents) + 3 - 1) div 3
        \<and> map vec_id (concat batches) = map unit_id sample_documents"
    by (simp only: b)
  show ?thesis
    by (intro conjI h1 h2 e ex)
qed

text \<open>
  Claim C1 as stated fails: when the provider answers three vectors for four texts,
  \<^verbatim>\<open>upsert_data\<close> returns normally and writes the first three units only.
\<close>

theorem upsert_data_mismatch_counterexample:
  "length (short_client (map unit_text sample_documents)) = 3
   \<and> length sample_documents = 4
   \<and> fst (upsert_data sample_documents ''idx'' None short_client sample_args empty_world) = Returns ()
   \<and> upserts_of (trace (snd (upsert_data sample_documents ''idx'' None short_client sample_args
         empty_world)))
     = [([\<lparr>vec_id = ''doc1'', vec_values = 5, vec_metadata_text = ''alpha''\<rparr>,
          \<lparr>vec_id = ''doc2'', vec_values = 4, vec_metadata_text = ''beta''\<rparr>,
          \<lparr>vec_id = ''doc3'', vec_values = 5, vec_metadata_text = ''gamma''\<rparr>], [])]"
  by (simp add: eval_defs)

text \<open>
  Claim C1, amended. Whatever list of vectors the provider answers, \<^verbatim>\<open>upsert_data\<close> raises
  nothing: it calls the provider once with all the texts, pairs units and vectors by position
  up to the end of the shorter list, as \<^verbatim>\<open>zip\<close> does, and with a positive batch size writes
  exactly these pairs, in order. Units beyond the vectors answered are left out and vectors
  beyond the units are ignored; when the counts agree every unit is written with its vector.
\<close>

theorem upsert_data_pairs_positionally:
  fixes client :: "string list \<Rightarrow> 'v list"
  shows "\<exists>w' written.
           upsert_data documents index namespace client args w = (Returns (), w')
         \<and> embed_calls_of (trace w') = embed_calls_of (trace w) @ [map unit_text documents]
         \<and> upserts_of (trace w') = upserts_of (trace w) @ written
         \<and> (0 < batch_size_of args \<longrightarrow>
              map vec_id (concat (map fst written))
                = map unit_id (take (min (length documents)
                    (length (client (map unit_text documents)))) documents)
            \<and> map vec_values (concat (map fst written))
                = take (min (length documents) (length (client (map unit_text documents))))
                    (client (map unit_text documents))
            \<and> map vec_metadata_text (concat (map fst written))
                = map unit_text (take (min (length documents)
                    (length (client (map unit_text documents)))) documents))"
proof -
  let ?vs = "make_vectors documents (client (map unit_text documents))"
  let ?written = "if 0 < batch_size_of args
                then map (\<lambda>b. (b, case namespace of None \<Rightarrow> [] | Some n \<Rightarrow> n))
                       (slices ?vs (nat (batch_size_of args)) 0)
                else []"
  from upsert_data_result[of documents index namespace client args w]
  obtain w' where w': "upsert_data documents index namespace client args w = (Returns (), w')"
    "embed_calls_of (trace w') = embed_calls_of (trace w) @ [map unit_text documents]"
    "upserts_of (trace w') = upserts_of (trace w) @ ?written"
    by blast
  have c: "0 < batch_size_of args \<Longrightarrow> concat (map fst ?written) = ?vs"
    by (simp add: o_def concat_slices)
  show ?thesis
    using w' c make_vectors_zip[of documents "client (map unit_text documents)"]
    by (intro exI[of _ w'] exI[of _ ?written]) auto
qed

theorem upsert_data_pairs_positionally_witness:
  "0 < batch_size_of sample_args
   \<and> (\<exists>w' written.
         upsert_data sample_documents ''idx'' None short_client sample_args empty_world
           = (Returns (), w')
       \<and> upserts_of (trace w') = upserts_of (trace empty_world) @ written
       \<and> map vec_id (concat (map fst written)) = [''doc1'', ''doc2'', ''doc3'']
       \<and> map vec_values (concat (map fst written)) = [5, 4, 5])"
proof -
  have h: "0 < batch_size_of sample_args" by (simp add: batch_size_of_def sample_args_def)
  from upsert_data_pairs_positionally[of sample_documents "''idx''" None short_client
      sample_args empty_world] h
  show ?thesis
    by (auto simp: sample_documents_def short_client_def)
qed




text \<open>
  Claim C4 as stated fails: on an empty line the definition of
  \<^verbatim>\<open>select_or_create_namespace\<close> in force returns \<^verbatim>\<open>None\<close>, not the empty string (the
  definition it replaces returns the empty string).
\<close>

theorem namespace_empty_input_counterexample:
  "fst (select_or_create_namespace None False (empty_world\<lparr>stdin := [[]]\<rparr>)) = Returns None
   \<and> fst (select_or_create_namespace None False (empty_world\<lparr>stdin := [[]]\<rparr>)) \<noteq> Returns (Some [])
   \<and> fst (select_or_create_namespace_shadowed None False (empty_world\<lparr>stdin := [[]]\<rparr>))
       = Returns (Some [])"
  by (simp add: select_or_create_namespace_def select_or_create_namespace_shadowed_def
      bind_io_def py_input_def pure_io_def strip_def empty_world_def)

text \<open>
  Claim C4, amended. In the definition in force, an interactive namespace input that is empty
  or blank resolves to \<^verbatim>\<open>None\<close> and any other input to the input stripped (the replaced
  definition of line 118 gives the empty string for the empty input); a provided namespace is
  returned as given and the non-interactive mode gives \<^verbatim>\<open>default_namespace\<close>. The write path
  resolves \<^verbatim>\<open>None\<close> before any write: \<^verbatim>\<open>upsert_data\<close> behaves the same for \<^verbatim>\<open>None\<close> and for
  the empty string, every write call carries the empty string as its namespace in both cases,
  and any other namespace is passed on unchanged.
\<close>

theorem namespace_resolution:
  fixes client :: "string list \<Rightarrow> 'v list" and w :: "'v world" and u :: "'v world"
  shows "(\<forall>line rest. stdin w = line # rest \<longrightarrow>
            fst (select_or_create_namespace None False w)
              = Returns (if strip line = [] then None else Some (strip line))
          \<and> fst (select_or_create_namespace_shadowed None False w) = Returns (Some (strip line)))
       \<and> fst (select_or_create_namespace (Some provided) non_interactive w) = Returns (Some provided)
       \<and> fst (select_or_create_namespace None True w) = Returns (Some ''default_namespace'')
       \<and> upsert_data documents index None client args
           = upsert_data documents index (Some []) client args
       \<and> (\<exists>u' written.
             upsert_data documents index namespace client args u = (Returns (), u')
           \<and> upserts_of (trace u') = upserts_of (trace u) @ written
           \<and> (\<forall>x \<in> set written. snd x = (case namespace of None \<Rightarrow> [] | Some n \<Rightarrow> n)))"
proof -
  have 1: "\<forall>line rest. stdin w = line # rest \<longrightarrow>
            fst (select_or_create_namespace None False w)
              = Returns (if strip line = [] then None else Some (strip line))
          \<and> fst (select_or_create_namespace_shadowed None False w) = Returns (Some (strip line))"
    by (simp add: select_or_create_namespace_def select_or_create_namespace_shadowed_def
        bind_io_def py_input_def pure_io_def Let_def)
  have 2: "fst (select_or_create_namespace (Some provided) non_interactive w) = Returns (Some provided)"
    by (simp add: select_or_create_namespace_def bind_io_def py_print_def emit_def pure_io_def)
  have 3: "fst (select_or_create_namespace None True w) = Returns (Some ''default_namespace'')"
    by (simp add: select_or_create_namespace_def bind_io_def py_print_def emit_def pure_io_def)
  have 4: "upsert_data documents index None client args
           = upsert_data documents index (Some []) client args"
    by (simp add: upsert_data_def)
  from upsert_data_result[of documents index namespace client args u]
  obtain u' where u': "upsert_data documents index namespace client args u = (Returns (), u')"
    "upserts_of (trace u') = upserts_of (trace u) @
               (if 0 < batch_size_of args
                then map (\<lambda>b. (b, case namespace of None \<Rightarrow> [] | Some n \<Rightarrow> n))
                       (slices (make_vectors documents (client (map unit_text documents)))
                          (nat (batch_size_of args)) 0)
                else [])"
    by blast
  have 5: "\<exists>u' written.
             upsert_data documents index namespace client args u = (Returns (), u')
           \<and> upserts_of (trace u') = upserts_of (trace u) @ written
           \<and> (\<forall>x \<in> set written. snd x = (case namespace of None \<Rightarrow> [] | Some n \<Rightarrow> n))"
    using u' by (intro exI[of _ u'] exI[of _ "if 0 < batch_size_of args
                then map (\<lambda>b. (b, case namespace of None \<Rightarrow> [] | Some n \<Rightarrow> n))
                       (slices (make_vectors documents (client (map unit_text documents)))
                          (nat (batch_size_of args)) 0)
                else []"]) auto
  show ?thesis by (intro conjI 1 2 3 4 5)
qed

theorem namespace_resolution_witness:
  "stdin (empty_world\<lparr>stdin := ['' '', ''x'']\<rparr>) = '' '' # [''x'']
   \<and> fst (select_or_create_namespace None False (empty_world\<lparr>stdin := ['' '', ''x'']\<rparr>))
       = Returns None
   \<and> stdin (empty_world\<lparr>stdin := ['' ns1 '']\<rparr>) = '' ns1 '' # []
   \<and> fst (select_or_create_namespace None False (empty_world\<lparr>stdin := ['' ns1 '']\<rparr>))
       = Returns (Some ''ns1'')
   \<and> upserts_of (trace (snd (upsert_data sample_documents ''idx'' None length_client sample_args
         empty_world)))
     = upserts_of (trace (snd (upsert_data sample_documents ''idx'' (Some []) length_client
         sample_args empty_world)))
   \<and> map snd (upserts_of (trace (snd (upsert_data sample_documents ''idx'' None length_client
         sample_args empty_world)))) = [[]]"
proof -
  note t1 = namespace_resolution[where w = "empty_world\<lparr>stdin := ['' '', ''x'']\<rparr>"
      and documents = sample_documents and index = "''idx''" and client = length_client
      and args = sample_args and u = empty_world and namespace = None]
  note t2 = namespace_resolution[where w = "empty_world\<lparr>stdin := ['' ns1 '']\<rparr>"
      and documents = sample_documents and index = "''idx''" and client = length_client
      and args = sample_args and u = empty_world and namespace = None]
  have s1: "stdin (empty_world\<lparr>stdin := ['' '', ''x'']\<rparr>) = '' '' # [''x'']" by simp
  have s2: "stdin (empty_world\<lparr>stdin := ['' ns1 '']\<rparr>) = '' ns1 '' # []" by simp
  have e1: "strip '' '' = []" by (simp add: strip_def is_space_def)
  have e2: "strip '' ns1 '' = ''ns1''" by (simp add: strip_def is_space_def)
  have a: "fst (select_or_create_namespace None False (empty_world\<lparr>stdin := ['' '', ''x'']\<rparr>))
       = Returns None"
    using t1 s1 e1 by auto
  have b: "fst (select_or_create_namespace None False (empty_world\<lparr>stdin := ['' ns1 '']\<rparr>))
       = Returns (Some ''ns1'')"
    using t2 s2 e2 by auto
  have c: "upsert_data sample_documents ''idx'' None length_client sample_args
           = upsert_data sample_documents ''idx'' (Some []) length_client sample_args"
    using t1 by blast
  have d: "map snd (upserts_of (trace (snd (upsert_data sample_documents ''idx'' None length_client
         sample_args empty_world)))) = [[]]"
    by (simp add: eval_defs)
  show ?thesis
    by (intro conjI s1 s2 a b d) (simp only: c)
qed

subsection \<open>Collecting the documents\<close>







lemma process_file_shape:
  "\<exists>es. process_file env filepath w = (file_result env filepath, w\<lparr>trace := trace w @ map Print es\<rparr>)"
proof (cases "extract_text env filepath (str_lower (snd (os_path_splitext env filepath)))")
  case (Inl f)
  then show ?thesis
    by (intro exI[of _ "[failure_line f filepath]"])
       (simp add: process_file_def file_result_def Let_def bind_io_def py_print_def emit_def pure_io_def)
next
  case (Inr content)
  show ?thesis
  proof (cases "chunk_text (tiktoken env) content 1000")
    case (Returns chunks)
    with Inr show ?thesis
      by (intro exI[of _ "[''Processed '' @ quoted filepath @ '' into ''
                                @ str_int (int (length chunks)) @ '' chunk(s).'']"])
         (simp add: process_file_def file_result_def Let_def bind_io_def py_print_def emit_def pure_io_def)
  qed (use Inr in \<open>auto simp: process_file_def file_result_def Let_def bind_io_def pure_io_def
        intro: exI[of _ "[]"]\<close>)
qed

lemma upserts_of_prints [simp]: "upserts_of (map Print es) = []"
  by (induction es) simp_all

lemma embed_calls_of_prints [simp]: "embed_calls_of (map Print es) = []"
  by (induction es) simp_all

lemma bind_io_shape:
  assumes "m w = (r, w\<lparr>trace := trace w @ map Print es\<rparr>)"
    and "\<And>a u. \<exists>es'. f a u = (g a, u\<lparr>trace := trace u @ map Print es'\<rparr>)"
  shows "\<exists>es''. bind_io m f w = (result_bind r g, w\<lparr>trace := trace w @ map Print es''\<rparr>)"
proof (cases r)
  case (Returns a)
  from assms(2)[of a "w\<lparr>trace := trace w @ map Print es\<rparr>"] obtain es' where
    "f a (w\<lparr>trace := trace w @ map Print es\<rparr>)
     = (g a, w\<lparr>trace := trace w @ map Print es @ map Print es'\<rparr>)"
    by auto
  with Returns assms(1) show ?thesis
    by (intro exI[of _ "es @ es'"]) (simp add: bind_io_def result_bind_def)
qed (use assms(1) in \<open>auto simp: bind_io_def result_bind_def\<close>)

lemma walk_files_shape:
  "\<exists>es. walk_files env root files st w
        = (collect_files env root files st, w\<lparr>trace := trace w @ map Print es\<rparr>)"
proof (induction files arbitrary: st w)
  case Nil
  show ?case by (intro exI[of _ "[]"]) (simp add: pure_io_def)
next
  case (Cons fl files)
  let ?fp = "os_path_join env root fl"
  from process_file_shape[of env ?fp w] obtain es where
    p: "process_file env ?fp w = (file_result env ?fp, w\<lparr>trace := trace w @ map Print es\<rparr>)"
    by blast
  have "\<exists>es''. bind_io (process_file env ?fp)
            (\<lambda>chunks. walk_files env root files (add_chunks chunks st)) w
        = (result_bind (file_result env ?fp)
             (\<lambda>chunks. collect_files env root files (add_chunks chunks st)),
           w\<lparr>trace := trace w @ map Print es''\<rparr>)"
    by (rule bind_io_shape[where m = "process_file env ?fp" and w = w
          and r = "file_result env ?fp" and es = es
          and f = "\<lambda>chunks. walk_files env root files (add_chunks chunks st)"
          and g = "\<lambda>chunks. collect_files env root files (add_chunks chunks st)", OF p])
       (rule Cons.IH)
  then show ?case by (simp add: Let_def)
qed

lemma walk_dirs_shape:
  "\<exists>es. walk_dirs env triples st w
        = (collect_dirs env triples st, w\<lparr>trace := trace w @ map Print es\<rparr>)"
proof (induction triples arbitrary: st w)
  case Nil
  show ?case by (intro exI[of _ "[]"]) (simp add: pure_io_def)
next
  case (Cons t triples)
  obtain root dirs files where t: "t = (root, dirs, files)" by (cases t) auto
  from walk_files_shape[of env root files st w] obtain es where
    p: "walk_files env root files st w
        = (collect_files env root files st, w\<lparr>trace := trace w @ map Print es\<rparr>)"
    by blast
  have "\<exists>es''. bind_io (walk_files env root files st) (\<lambda>st'. walk_dirs env triples st') w
        = (result_bind (collect_files env root files st) (\<lambda>st'. collect_dirs env triples st'),
           w\<lparr>trace := trace w @ map Print es''\<rparr>)"
    by (rule bind_io_shape[where m = "walk_files env root files st" and w = w
          and r = "collect_files env root files st" and es = es
          and f = "\<lambda>st'. walk_dirs env triples st'"
          and g = "\<lambda>st'. collect_dirs env triples st'", OF p])
       (rule Cons.IH)
  then show ?case by (simp add: t)
qed

lemma process_directory_shape:
  "\<exists>es. process_directory env directory w
        = (result_bind (collect_dirs env (os_walk env directory) ([], 1)) (\<lambda>st. Returns (fst st)),
           w\<lparr>trace := trace w @ map Print es\<rparr>)"
proof -
  from walk_dirs_shape[of env "os_walk env directory" "([], 1)" w] obtain es where
    p: "walk_dirs env (os_walk env directory) ([], 1) w
        = (collect_dirs env (os_walk env directory) ([], 1), w\<lparr>trace := trace w @ map Print es\<rparr>)"
    by blast
  have "\<exists>es''. bind_io (walk_dirs env (os_walk env directory) ([], 1))
           (\<lambda>(documents, doc_id). pure_io (Returns documents)) w
        = (result_bind (collect_dirs env (os_walk env directory) ([], 1)) (\<lambda>st. Returns (fst st)),
           w\<lparr>trace := trace w @ map Print es''\<rparr>)"
    by (rule bind_io_shape[where m = "walk_dirs env (os_walk env directory) ([], 1)" and w = w
          and r = "collect_dirs env (os_walk env directory) ([], 1)" and es = es
          and f = "\<lambda>(documents, doc_id). pure_io (Returns documents)"
          and g = "\<lambda>st. Returns (fst st)", OF p])
       (auto simp: pure_io_def intro: exI[of _ "[]"])
  then show ?thesis by (simp add: process_directory_def)
qed


lemma add_chunks_Nil [simp]: "add_chunks [] st = st"
  by (cases st) simp






lemmas collect_defs = process_directory_def process_file_def extract_text_def failure_line_def
  exn_str_def chunk_text_def str_lower_def lower_char_def strip_def is_space_def
  nibble_tokenizer_def nibble_encode_def bind_io_def py_print_def emit_def pure_io_def Let_def
  sample_env_def empty_world_def


subsection \<open>Collection claims\<close>



lemma process_directory_result:
  "fst (process_directory env directory w)
   = result_bind (collect_dirs env (os_walk env directory) ([], 1)) (\<lambda>st. Returns (fst st))"
  using process_directory_shape[of env directory w] by auto





lemma file_result_walk_update [simp]:
  "file_result (env\<lparr>os_walk := x\<rparr>) filepath = file_result env filepath"
  by (simp add: file_result_def extract_text_def split: sum.splits option.splits)

lemma collect_files_walk_update [simp]:
  "collect_files (env\<lparr>os_walk := x\<rparr>) root files st = collect_files env root files st"
  by (induction files arbitrary: st) simp_all







lemma get_directory_trace:
  assumes "get_directory env args w = (r, w1)"
  shows "upserts_of (trace w1) = upserts_of (trace w)
       \<and> embed_calls_of (trace w1) = embed_calls_of (trace w)"
  using assms
  by (auto simp: get_directory_def Let_def bind_io_def py_print_def py_input_def emit_def
      pure_io_def upserts_of_append embed_calls_of_append
      split: if_splits option.splits list.splits prod.splits result.splits)

text \<open>
  Claim C9. When the directory is accepted and its collection gives no unit, \<^verbatim>\<open>main\<close> prints
  \<^verbatim>\<open>No valid documents found. Exiting.\<close> last and exits with status 1, and the run has
  called neither the embedding provider nor \<^verbatim>\<open>index.upsert\<close>.
\<close>

theorem main_no_documents:
  fixes env :: "'v env"
  assumes dir: "fst (get_directory env args w) = Returns directory"
    and none: "fst (process_directory env directory w) = Returns []"
  shows "\<exists>w'. main env args w = (Exits 1, w')
          \<and> last (trace w') = Print ''No valid documents found. Exiting.''
          \<and> embed_calls_of (trace w') = embed_calls_of (trace w)
          \<and> upserts_of (trace w') = upserts_of (trace w)"
proof -
  obtain w1 where g: "get_directory env args w = (Returns directory, w1)"
    using dir by (cases "get_directory env args w") auto
  note t1 = get_directory_trace[OF g]
  let ?w2 = "w1\<lparr>trace := trace w1 @ [Print ''Processing files in directory. This may take a while...'']\<rparr>"
  have "result_bind (collect_dirs env (os_walk env directory) ([], 1)) (\<lambda>st. Returns (fst st))
        = Returns []"
    using none by (simp add: process_directory_result)
  with process_directory_shape[of env directory ?w2] obtain es where
    p: "process_directory env directory ?w2 = (Returns [], ?w2\<lparr>trace := trace ?w2 @ map Print es\<rparr>)"
    by auto
  let ?w3 = "?w2\<lparr>trace := trace ?w2 @ map Print es\<rparr>"
  let ?w4 = "?w3\<lparr>trace := trace ?w3 @ [Print ''No valid documents found. Exiting.'']\<rparr>"
  have m: "main env args w = (Exits 1, ?w4)"
    by (simp add: main_def bind_io_def g p py_print_def emit_def pure_io_def)
  have "last (trace ?w4) = Print ''No valid documents found. Exiting.''" by simp
  moreover have "embed_calls_of (trace ?w4) = embed_calls_of (trace w)"
    using t1 by (simp add: embed_calls_of_append)
  moreover have "upserts_of (trace ?w4) = upserts_of (trace w)"
    using t1 by (simp add: upserts_of_append)
  ultimately show ?thesis using m by (intro exI[of _ ?w4]) blast
qed

theorem main_no_documents_witness:
  "fst (get_directory unreadable_env sample_args empty_world) = Returns ''docs''
   \<and> fst (process_directory unreadable_env ''docs'' empty_world) = Returns []
   \<and> fst (main unreadable_env sample_args empty_world) = Exits 1
   \<and> last (trace (snd (main unreadable_env sample_args empty_world)))
       = Print ''No valid documents found. Exiting.''
   \<and> embed_calls_of (trace (snd (main unreadable_env sample_args empty_world))) = []
   \<and> upserts_of (trace (snd (main unreadable_env sample_args empty_world))) = []"
proof -
  have h1: "fst (get_directory unreadable_env sample_args empty_world) = Returns ''docs''"
    by (simp add: get_directory_def unreadable_env_def sample_env_def sample_args_def
        bind_io_def pure_io_def Let_def)
  have h2: "fst (process_directory unreadable_env ''docs'' empty_world) = Returns []"
    by (simp add: unreadable_env_def collect_defs)
  from main_no_documents[OF h1 h2] obtain w' where
    "main unreadable_env sample_args empty_world = (Exits 1, w')"
    "last (trace w') = Print ''No valid documents found. Exiting.''"
    "embed_calls_of (trace w') = embed_calls_of (trace empty_world)"
    "upserts_of (trace w') = upserts_of (trace empty_world)"
    by blast
  then show ?thesis using h1 h2 by (simp add: empty_world_def)
qed

end
